theory Spec2Isabelle
  imports Complex_Main
begin

section \<open>JavaScript numbers\<close>

text \<open>
  Every number of \<^verbatim>\<open>Param.ts\<close> is a JavaScript \<^verbatim>\<open>number\<close>. A finite number is
  modelled as a real (no rounding, no overflow, one zero); the three values that
  \<^verbatim>\<open>isFinite\<close> rejects are kept apart, since the assertions of the scheduling methods
  and \<^verbatim>\<open>Math.max\<close> tell them from each other.
\<close>

datatype jsnum = Fin real | PInf | NInf | NaN

fun isFinite :: "jsnum \<Rightarrow> bool" where
  "isFinite (Fin x) = True"
| "isFinite PInf = False"
| "isFinite NInf = False"
| "isFinite NaN = False"

text \<open>The number under a finite value; read only behind an \<open>isFinite\<close> test.\<close>

fun the_Fin :: "jsnum \<Rightarrow> real" where
  "the_Fin (Fin x) = x"
| "the_Fin PInf = 0"
| "the_Fin NInf = 0"
| "the_Fin NaN = 0"

fun Math_max :: "jsnum \<Rightarrow> jsnum \<Rightarrow> jsnum" where
  "Math_max NaN y = NaN"
| "Math_max x NaN = NaN"
| "Math_max PInf y = PInf"
| "Math_max x PInf = PInf"
| "Math_max NInf y = y"
| "Math_max x NInf = x"
| "Math_max (Fin a) (Fin b) = Fin (max a b)"

fun Math_min :: "jsnum \<Rightarrow> jsnum \<Rightarrow> jsnum" where
  "Math_min NaN y = NaN"
| "Math_min x NaN = NaN"
| "Math_min NInf y = NInf"
| "Math_min x NInf = NInf"
| "Math_min PInf y = y"
| "Math_min x PInf = x"
| "Math_min (Fin a) (Fin b) = Fin (min a b)"

fun jneg :: "jsnum \<Rightarrow> jsnum" where
  "jneg (Fin a) = Fin (- a)"
| "jneg PInf = NInf"
| "jneg NInf = PInf"
| "jneg NaN = NaN"

fun jadd :: "jsnum \<Rightarrow> jsnum \<Rightarrow> jsnum" where
  "jadd NaN y = NaN"
| "jadd x NaN = NaN"
| "jadd (Fin a) (Fin b) = Fin (a + b)"
| "jadd PInf NInf = NaN"
| "jadd NInf PInf = NaN"
| "jadd PInf y = PInf"
| "jadd x PInf = PInf"
| "jadd NInf y = NInf"
| "jadd x NInf = NInf"

definition jsub :: "jsnum \<Rightarrow> jsnum \<Rightarrow> jsnum" where
  "jsub x y = jadd x (jneg y)"

text \<open>The sign of a number that is not NaN, as \<open>-1\<close>, \<open>0\<close> or \<open>1\<close>.\<close>

fun jsign :: "jsnum \<Rightarrow> int" where
  "jsign (Fin a) = (if 0 < a then 1 else if a < 0 then - 1 else 0)"
| "jsign PInf = 1"
| "jsign NInf = - 1"
| "jsign NaN = 0"

definition signed_inf :: "int \<Rightarrow> jsnum" where
  "signed_inf s = (if 0 < s then PInf else if s < 0 then NInf else NaN)"

fun jmul :: "jsnum \<Rightarrow> jsnum \<Rightarrow> jsnum" where
  "jmul NaN y = NaN"
| "jmul x NaN = NaN"
| "jmul (Fin a) (Fin b) = Fin (a * b)"
| "jmul x y = signed_inf (jsign x * jsign y)"

fun jdiv :: "jsnum \<Rightarrow> jsnum \<Rightarrow> jsnum" where
  "jdiv NaN y = NaN"
| "jdiv x NaN = NaN"
| "jdiv (Fin a) (Fin b) = (if b = 0 then signed_inf (jsign (Fin a)) else Fin (a / b))"
| "jdiv (Fin a) y = Fin 0"
| "jdiv x (Fin b) = signed_inf (jsign x * (if b < 0 then - 1 else 1))"
| "jdiv x y = NaN"

fun Math_exp :: "jsnum \<Rightarrow> jsnum" where
  "Math_exp (Fin a) = Fin (exp a)"
| "Math_exp PInf = PInf"
| "Math_exp NInf = Fin 0"
| "Math_exp NaN = NaN"

fun Math_log :: "jsnum \<Rightarrow> jsnum" where
  "Math_log (Fin a) = (if 0 < a then Fin (ln a) else if a = 0 then NInf else NaN)"
| "Math_log PInf = PInf"
| "Math_log NInf = NaN"
| "Math_log NaN = NaN"

text \<open>
  \<^verbatim>\<open>Math.pow\<close>: any base to the power zero is one; a negative base has a power only
  at an integer exponent; an infinite exponent compares the size of the base with one.
\<close>

definition jabs_cmp_one :: "jsnum \<Rightarrow> int" where
  "jabs_cmp_one x = (case x of
       Fin a \<Rightarrow> (if 1 < \<bar>a\<bar> then 1 else if \<bar>a\<bar> < 1 then - 1 else 0)
     | PInf \<Rightarrow> 1 | NInf \<Rightarrow> 1 | NaN \<Rightarrow> 0)"

definition is_odd_integer :: "real \<Rightarrow> bool" where
  "is_odd_integer e = (e = of_int \<lfloor>e\<rfloor> \<and> odd \<lfloor>e\<rfloor>)"

fun Math_pow :: "jsnum \<Rightarrow> jsnum \<Rightarrow> jsnum" where
  "Math_pow x NaN = NaN"
| "Math_pow x PInf =
     (if x = NaN then NaN
      else if 0 < jabs_cmp_one x then PInf
      else if jabs_cmp_one x < 0 then Fin 0 else NaN)"
| "Math_pow x NInf =
     (if x = NaN then NaN
      else if 0 < jabs_cmp_one x then Fin 0
      else if jabs_cmp_one x < 0 then PInf else NaN)"
| "Math_pow x (Fin e) =
     (if e = 0 then Fin 1
      else case x of
        NaN \<Rightarrow> NaN
      | PInf \<Rightarrow> (if 0 < e then PInf else Fin 0)
      | NInf \<Rightarrow> (if e < 0 then Fin 0 else if is_odd_integer e then NInf else PInf)
      | Fin b \<Rightarrow>
          (if 0 < b then Fin (b powr e)
           else if b = 0 then (if 0 < e then Fin 0 else PInf)
           else if e = of_int \<lfloor>e\<rfloor>
             then Fin ((if even \<lfloor>e\<rfloor> then 1 else - 1) * (\<bar>b\<bar> powr e))
             else NaN))"

section \<open>The timeline of automation events\<close>

text \<open>
  The tagged union \<^verbatim>\<open>AutomationEvent\<close>: the constructor is the event's \<^verbatim>\<open>type\<close> field.
  Only a \<^verbatim>\<open>setTargetAtTime\<close> event has a \<^verbatim>\<open>constant\<close>, here \<open>timeConstant\<close>. Every event reaches the
  timeline behind an assertion that its time is finite, so the time is a real; the value is
  a \<open>jsnum\<close>, since \<^verbatim>\<open>cancelAndHoldAtTime\<close> stores a value it has not tested.
\<close>

datatype AutomationEvent =
    LinearRampToValueAtTime (time: real) (val: jsnum)
  | ExponentialRampToValueAtTime (time: real) (val: jsnum)
  | SetValueAtTime (time: real) (val: jsnum)
  | CancelScheduledValues (time: real) (val: jsnum)
  | SetTargetAtTime (time: real) (val: jsnum) (timeConstant: real)

text \<open>
  Modelled from the spec: the class \<^verbatim>\<open>Timeline\<close> (\<^verbatim>\<open>../util/Timeline\<close>) is not among the
  sources. Its contract: the events are kept in non-decreasing time order, a new event
  going after the events of the same time; \<^verbatim>\<open>add\<close> at capacity discards the single oldest
  event first; \<^verbatim>\<open>get\<close> returns the event with the greatest time at or before the given
  time (the last written among equal times), \<^verbatim>\<open>getBefore\<close> the one with the greatest
  time strictly before, \<^verbatim>\<open>getAfter\<close> the one with the smallest time strictly after, or
  nothing; \<^verbatim>\<open>cancel\<close> removes every event at or after the given time.
\<close>

type_synonym Timeline = "AutomationEvent list"

text \<open>The capacity \<^verbatim>\<open>new Timeline<AutomationEvent>(1000)\<close> of the constructor.\<close>

definition memory :: nat where
  "memory = 1000"

fun Timeline_insert :: "AutomationEvent \<Rightarrow> Timeline \<Rightarrow> Timeline" where
  "Timeline_insert e [] = [e]"
| "Timeline_insert e (x # xs) =
     (if time x \<le> time e then x # Timeline_insert e xs else e # x # xs)"

definition Timeline_add :: "Timeline \<Rightarrow> AutomationEvent \<Rightarrow> Timeline" where
  "Timeline_add es e = Timeline_insert e (if memory \<le> length es then drop 1 es else es)"

fun last_option :: "'a list \<Rightarrow> 'a option" where
  "last_option [] = None"
| "last_option (x # xs) = (case last_option xs of None \<Rightarrow> Some x | Some y \<Rightarrow> Some y)"

definition Timeline_get :: "Timeline \<Rightarrow> real \<Rightarrow> AutomationEvent option" where
  "Timeline_get es t = last_option (filter (\<lambda>e. time e \<le> t) es)"

definition Timeline_getBefore :: "Timeline \<Rightarrow> real \<Rightarrow> AutomationEvent option" where
  "Timeline_getBefore es t = last_option (filter (\<lambda>e. time e < t) es)"

definition Timeline_getAfter :: "Timeline \<Rightarrow> real \<Rightarrow> AutomationEvent option" where
  "Timeline_getAfter es t = List.find (\<lambda>e. t < time e) es"

definition Timeline_cancel :: "Timeline \<Rightarrow> real \<Rightarrow> Timeline" where
  "Timeline_cancel es t = filter (\<lambda>e. time e < t) es"

text \<open>The order the timeline keeps.\<close>

definition ordered :: "Timeline \<Rightarrow> bool" where
  "ordered es = sorted (map time es)"

section \<open>The parameter\<close>

datatype UnitName =
    Unit_time | Unit_decibels | Unit_frequency | Unit_normalRange | Unit_audioRange
  | Unit_positive | Unit_number | Unit_bpm | Unit_other

text \<open>The calls forwarded to the native \<^verbatim>\<open>AudioParam\<close> (\<^verbatim>\<open>this._param\<close>), oldest first.\<close>

datatype NativeCall =
    Native_setValueAtTime jsnum real
  | Native_linearRampToValueAtTime jsnum real
  | Native_exponentialRampToValueAtTime jsnum real
  | Native_setTargetAtTime jsnum real real
  | Native_cancelScheduledValues real

text \<open>
  The fields of the class that its methods read or write. \<open>native\<close> is the trace of
  the calls made on \<^verbatim>\<open>_param\<close>; \<open>sampleTime\<close> is the context's; \<open>dbToGain\<close> and
  \<open>gainToDb\<close> are the two conversions imported from \<^verbatim>\<open>../type/Conversions\<close>, which is
  not among the sources: they are parameters of the model.
\<close>

record Param =
  events :: Timeline
  native :: "NativeCall list"
  initialValue :: jsnum
  units :: UnitName
  convert :: bool
  overridden :: bool
  sampleTime :: real
  dbToGain :: "jsnum \<Rightarrow> jsnum"
  gainToDb :: "jsnum \<Rightarrow> jsnum"

text \<open>\<^verbatim>\<open>this.assert\<close> throws; the state that the throw leaves behind comes with the error.\<close>

datatype error = AssertionError

type_synonym result = "(error \<times> Param) + Param"

text \<open>The rest of a method after a call that may throw.\<close>

definition and_then :: "result \<Rightarrow> (Param \<Rightarrow> result) \<Rightarrow> result" where
  "and_then r f = (case r of Inl e \<Rightarrow> Inl e | Inr p \<Rightarrow> f p)"

text \<open>\<^verbatim>\<open>private _minOutput = 1e-7\<close>\<close>

definition minOutput :: jsnum where
  "minOutput = Fin (1 / 10 ^ 7)"

text \<open>
  Modelled from the spec: the time and frequency conversions \<^verbatim>\<open>toSeconds\<close> and
  \<^verbatim>\<open>toFrequency\<close> of the base class are not among the sources. The model's times and
  frequencies are numbers, already seconds and hertz, which the conversions return as
  they are.
\<close>

definition toSeconds :: "jsnum \<Rightarrow> jsnum" where
  "toSeconds t = t"

definition toFrequency :: "jsnum \<Rightarrow> jsnum" where
  "toFrequency f = f"

definition fromType :: "Param \<Rightarrow> jsnum \<Rightarrow> jsnum" where
  "fromType p v =
     (if convert p \<and> \<not> overridden p then
        (case units p of
           Unit_time \<Rightarrow> toSeconds v
         | Unit_decibels \<Rightarrow> dbToGain p v
         | Unit_frequency \<Rightarrow> toFrequency v
         | Unit_normalRange \<Rightarrow> Math_min (Math_max v (Fin 0)) (Fin 1)
         | Unit_audioRange \<Rightarrow> Math_min (Math_max v (Fin (- 1))) (Fin 1)
         | Unit_positive \<Rightarrow> Math_max v (Fin 0)
         | Unit_number \<Rightarrow> v
         | Unit_bpm \<Rightarrow> v
         | Unit_other \<Rightarrow> v)
      else v)"

definition toType :: "Param \<Rightarrow> jsnum \<Rightarrow> jsnum" where
  "toType p v = (if convert p \<and> units p = Unit_decibels then gainToDb p v else v)"

subsection \<open>Curve calculations\<close>

definition exponentialApproach :: "jsnum \<Rightarrow> jsnum \<Rightarrow> jsnum \<Rightarrow> jsnum \<Rightarrow> jsnum \<Rightarrow> jsnum" where
  "exponentialApproach t0 v0 v1 tau t =
     jadd v1 (jmul (jsub v0 v1) (Math_exp (jdiv (jneg (jsub t t0)) tau)))"

definition linearInterpolate :: "jsnum \<Rightarrow> jsnum \<Rightarrow> jsnum \<Rightarrow> jsnum \<Rightarrow> jsnum \<Rightarrow> jsnum" where
  "linearInterpolate t0 v0 t1 v1 t =
     jadd v0 (jmul (jsub v1 v0) (jdiv (jsub t t0) (jsub t1 t0)))"

definition exponentialInterpolate :: "jsnum \<Rightarrow> jsnum \<Rightarrow> jsnum \<Rightarrow> jsnum \<Rightarrow> jsnum \<Rightarrow> jsnum" where
  "exponentialInterpolate t0 v0 t1 v1 t =
     jmul v0 (Math_pow (jdiv v1 v0) (jdiv (jsub t t0) (jsub t1 t0)))"

subsection \<open>Scheduling and reconstruction\<close>

definition setValueAtTime :: "Param \<Rightarrow> jsnum \<Rightarrow> jsnum \<Rightarrow> result" where
  "setValueAtTime p v t =
     (let computedTime = toSeconds t;
          numericValue = fromType p v
      in if isFinite numericValue \<and> isFinite computedTime then
           Inr (p\<lparr>events := Timeline_add (events p)
                     (SetValueAtTime (the_Fin computedTime) numericValue),
                  native := native p @
                     [Native_setValueAtTime numericValue (the_Fin computedTime)]\<rparr>)
         else Inl (AssertionError, p))"

text \<open>The value that the event before the given one held, or the initial value.\<close>

definition previousVal :: "Param \<Rightarrow> AutomationEvent \<Rightarrow> jsnum" where
  "previousVal p before =
     (case Timeline_getBefore (events p) (time before) of
        None \<Rightarrow> initialValue p
      | Some previous \<Rightarrow> val previous)"

text \<open>
  The query time is a finite number of seconds: the callers that may hold another one
  (\<^verbatim>\<open>cancelAndHoldAtTime\<close>, \<^verbatim>\<open>setRampPoint\<close>) throw before they use the result, and the
  query changes nothing.
\<close>

definition getValueAtTime :: "Param \<Rightarrow> real \<Rightarrow> jsnum" where
  "getValueAtTime p t =
     (let computedTime = max t 0;
          after = Timeline_getAfter (events p) computedTime;
          before = Timeline_get (events p) computedTime
      in toType p
        (case before of
           None \<Rightarrow> initialValue p
         | Some b \<Rightarrow>
             if is_SetTargetAtTime b \<and>
                (case after of None \<Rightarrow> True | Some a \<Rightarrow> is_SetValueAtTime a)
             then exponentialApproach (Fin (time b)) (previousVal p b) (val b)
                    (Fin (timeConstant b)) (Fin computedTime)
             else
               (case after of
                  None \<Rightarrow> val b
                | Some a \<Rightarrow>
                    if is_LinearRampToValueAtTime a \<or> is_ExponentialRampToValueAtTime a
                    then
                      (let beforeValue =
                             (if is_SetTargetAtTime b then previousVal p b else val b)
                       in if is_LinearRampToValueAtTime a
                          then linearInterpolate (Fin (time b)) beforeValue
                                 (Fin (time a)) (val a) (Fin computedTime)
                          else exponentialInterpolate (Fin (time b)) beforeValue
                                 (Fin (time a)) (val a) (Fin computedTime))
                    else val b)))"

definition linearRampToValueAtTime :: "Param \<Rightarrow> jsnum \<Rightarrow> jsnum \<Rightarrow> result" where
  "linearRampToValueAtTime p v endTime =
     (let numericValue = fromType p v;
          computedTime = toSeconds endTime
      in if isFinite numericValue \<and> isFinite computedTime then
           Inr (p\<lparr>events := Timeline_add (events p)
                     (LinearRampToValueAtTime (the_Fin computedTime) numericValue),
                  native := native p @
                     [Native_linearRampToValueAtTime numericValue (the_Fin computedTime)]\<rparr>)
         else Inl (AssertionError, p))"

definition exponentialRampToValueAtTime :: "Param \<Rightarrow> jsnum \<Rightarrow> jsnum \<Rightarrow> result" where
  "exponentialRampToValueAtTime p v endTime =
     (let numericValue = Math_max minOutput (fromType p v);
          computedTime = toSeconds endTime
      in if isFinite numericValue \<and> isFinite computedTime then
           Inr (p\<lparr>events := Timeline_add (events p)
                     (ExponentialRampToValueAtTime (the_Fin computedTime) numericValue),
                  native := native p @
                     [Native_exponentialRampToValueAtTime numericValue
                        (the_Fin computedTime)]\<rparr>)
         else Inl (AssertionError, p))"

text \<open>\<^verbatim>\<open>timeConstant > 0\<close> on a JavaScript number.\<close>

fun is_positive :: "jsnum \<Rightarrow> bool" where
  "is_positive (Fin a) = (0 < a)"
| "is_positive PInf = True"
| "is_positive NInf = False"
| "is_positive NaN = False"

definition setTargetAtTime :: "Param \<Rightarrow> jsnum \<Rightarrow> jsnum \<Rightarrow> jsnum \<Rightarrow> result" where
  "setTargetAtTime p v startTime tau =
     (let numericValue = fromType p v
      in if \<not> (isFinite tau \<and> is_positive tau) then Inl (AssertionError, p)
         else
           (let computedTime = toSeconds startTime
            in if isFinite numericValue \<and> isFinite computedTime then
                 Inr (p\<lparr>events := Timeline_add (events p)
                           (SetTargetAtTime (the_Fin computedTime) numericValue (the_Fin tau)),
                        native := native p @
                           [Native_setTargetAtTime numericValue (the_Fin computedTime)
                              (the_Fin tau)]\<rparr>)
               else Inl (AssertionError, p)))"

definition cancelScheduledValues :: "Param \<Rightarrow> jsnum \<Rightarrow> result" where
  "cancelScheduledValues p t =
     (let computedTime = toSeconds t
      in if isFinite computedTime then
           Inr (p\<lparr>events := Timeline_cancel (events p) (the_Fin computedTime),
                  native := native p @ [Native_cancelScheduledValues (the_Fin computedTime)]\<rparr>)
         else Inl (AssertionError, p))"

text \<open>
  \<^verbatim>\<open>cancelAndHoldAtTime\<close> reads the value at the time before it tests the time; the
  read changes nothing, so the model tests first. The native cancellation comes
  before the timeline is touched, the two ramp methods are the public ones (they
  convert, test and may throw), and the held value is added without a test.
\<close>

definition cancelAndHoldAtTime :: "Param \<Rightarrow> jsnum \<Rightarrow> result" where
  "cancelAndHoldAtTime p t =
     (let computedTime = toSeconds t
      in if \<not> isFinite computedTime then Inl (AssertionError, p)
         else
           (let ct = the_Fin computedTime;
                valueAtTime = fromType p (getValueAtTime p ct);
                p1 = p\<lparr>native := native p @ [Native_cancelScheduledValues ct]\<rparr>;
                before = Timeline_get (events p1) ct;
                after = Timeline_getAfter (events p1) ct;
                hold = (\<lambda>q. Inr (q\<lparr>events := Timeline_add (events q)
                                       (SetValueAtTime ct valueAtTime),
                                    native := native q @
                                       [Native_setValueAtTime valueAtTime ct]\<rparr>))
            in if (case before of None \<Rightarrow> False | Some b \<Rightarrow> time b = ct) then
                 (case after of
                    Some a \<Rightarrow> hold (p1\<lparr>events := Timeline_cancel (events p1) (time a)\<rparr>)
                  | None \<Rightarrow>
                      hold (p1\<lparr>events := Timeline_cancel (events p1) (ct + sampleTime p1)\<rparr>))
               else
                 (case after of
                    Some a \<Rightarrow>
                      (let p2 = p1\<lparr>events := Timeline_cancel (events p1) (time a)\<rparr>
                       in if is_LinearRampToValueAtTime a then
                            and_then
                              (linearRampToValueAtTime p2 (toType p2 valueAtTime) (Fin ct))
                              hold
                          else if is_ExponentialRampToValueAtTime a then
                            and_then
                              (exponentialRampToValueAtTime p2 (toType p2 valueAtTime) (Fin ct))
                              hold
                          else hold p2)
                  | None \<Rightarrow> hold p1)))"

definition setRampPoint :: "Param \<Rightarrow> jsnum \<Rightarrow> result" where
  "setRampPoint p t =
     (let t' = toSeconds t
      in if \<not> isFinite (toSeconds t') then Inl (AssertionError, p)
         else
           (let currentVal = getValueAtTime p (the_Fin (toSeconds t'))
            in and_then (cancelAndHoldAtTime p t')
                 (\<lambda>q. setValueAtTime q
                         (if fromType q currentVal = Fin 0 then toType q minOutput
                          else currentVal)
                         t')))"



definition exponentialApproachValueAtTime ::
    "Param \<Rightarrow> jsnum \<Rightarrow> jsnum \<Rightarrow> jsnum \<Rightarrow> result" where
  "exponentialApproachValueAtTime p v t rampTime =
     (let t' = toSeconds t;
          rampTime' = toSeconds rampTime;
          tau = jdiv (Math_log (jadd rampTime' (Fin 1))) (Math_log (Fin 200))
      in and_then (setTargetAtTime p v t' tau)
           (\<lambda>q. and_then (cancelAndHoldAtTime q (jadd t' (jmul rampTime' (Fin (9 / 10)))))
              (\<lambda>r. linearRampToValueAtTime r v (jadd t' rampTime'))))"

definition targetRampTo :: "Param \<Rightarrow> jsnum \<Rightarrow> jsnum \<Rightarrow> jsnum \<Rightarrow> result" where
  "targetRampTo p v rampTime startTime =
     (let startTime' = toSeconds startTime
      in and_then (setRampPoint p startTime')
           (\<lambda>q. exponentialApproachValueAtTime q v startTime' rampTime))"



section \<open>Parameters and observations for the examples\<close>

text \<open>
  A parameter as the constructor leaves it with the default options: no event, the
  unit \<^verbatim>\<open>"number"\<close>, \<^verbatim>\<open>convert\<close> set. The two decibel conversions are the usual
  \<open>10 ^ (db / 20)\<close> and \<open>20 log\<^sub>1\<^sub>0 gain\<close>.
\<close>

definition number_param :: Param where
  "number_param = \<lparr>events = [], native = [], initialValue = Fin 0, units = Unit_number,
     convert = True, overridden = False, sampleTime = 1 / 44100,
     dbToGain = (\<lambda>db. Math_pow (Fin 10) (jdiv db (Fin 20))),
     gainToDb = (\<lambda>g. jmul (Fin 20) (jdiv (Math_log g) (Math_log (Fin 10))))\<rparr>"

text \<open>The same parameter with the unit \<^verbatim>\<open>"normalRange"\<close>, whose values are clamped to \<open>[0, 1]\<close>.\<close>

definition normalRange_param :: Param where
  "normalRange_param = number_param\<lparr>units := Unit_normalRange\<rparr>"

text \<open>What a query reads after a sequence of calls, if none of them threw.\<close>

definition value_after :: "result \<Rightarrow> real \<Rightarrow> jsnum option" where
  "value_after r t = (case r of Inl e \<Rightarrow> None | Inr p \<Rightarrow> Some (getValueAtTime p t))"

definition events_after :: "result \<Rightarrow> Timeline option" where
  "events_after r = (case r of Inl e \<Rightarrow> None | Inr p \<Rightarrow> Some (events p))"




text \<open>
  What a hold that returns leaves: the parameter with a new trace of native calls and
  a timeline that ends with the held \<^verbatim>\<open>setValueAtTime\<close> event, nothing being later than it.
\<close>

definition held :: "Param \<Rightarrow> real \<Rightarrow> Param \<Rightarrow> bool" where
  "held p t p' \<longleftrightarrow>
     (\<exists>es ns. p' = p\<lparr>events := es @ [SetValueAtTime t (fromType p (getValueAtTime p t))],
                       native := ns\<rparr>
        \<and> (\<forall>x \<in> set es. time x \<le> t))"



text \<open>The ramps of the loop, from the index \<open>i\<close> on, over the samples still to come.\<close>

fun ramps_from :: "nat \<Rightarrow> real list \<Rightarrow> real \<Rightarrow> real \<Rightarrow> real \<Rightarrow> AutomationEvent list" where
  "ramps_from i [] st seg sc = []"
| "ramps_from i (y # ys) st seg sc =
     LinearRampToValueAtTime (st + real i * seg) (Fin (y * sc)) # ramps_from (Suc i) ys st seg sc"

section \<open>Numbers, conversions and single calls\<close>


lemma no_conversion:
  assumes "\<not> convert p \<or> units p = Unit_number"
  shows "fromType p v = v" and "toType p v = v"
  using assms by (auto simp: fromType_def toType_def)

lemma fromType_update [simp]:
  "fromType (p\<lparr>events := es\<rparr>) v = fromType p v"
  "fromType (p\<lparr>native := ns\<rparr>) v = fromType p v"
  by (simp_all add: fromType_def split: UnitName.splits)

lemma toType_update [simp]:
  "toType (p\<lparr>events := es\<rparr>) v = toType p v"
  "toType (p\<lparr>native := ns\<rparr>) v = toType p v"
  by (simp_all add: toType_def)

lemma setValueAtTime_Fin:
  "setValueAtTime p v (Fin t) =
     (if isFinite (fromType p v) then
        Inr (p\<lparr>events := Timeline_add (events p) (SetValueAtTime t (fromType p v)),
               native := native p @ [Native_setValueAtTime (fromType p v) t]\<rparr>)
      else Inl (AssertionError, p))"
  by (simp add: setValueAtTime_def toSeconds_def Let_def)

lemma linearRampToValueAtTime_Fin:
  "linearRampToValueAtTime p v (Fin t) =
     (if isFinite (fromType p v) then
        Inr (p\<lparr>events := Timeline_add (events p) (LinearRampToValueAtTime t (fromType p v)),
               native := native p @ [Native_linearRampToValueAtTime (fromType p v) t]\<rparr>)
      else Inl (AssertionError, p))"
  by (simp add: linearRampToValueAtTime_def toSeconds_def Let_def)

lemma exponentialRampToValueAtTime_Fin:
  "exponentialRampToValueAtTime p v (Fin t) =
     (if isFinite (Math_max minOutput (fromType p v)) then
        Inr (p\<lparr>events := Timeline_add (events p)
                 (ExponentialRampToValueAtTime t (Math_max minOutput (fromType p v))),
               native := native p @
                 [Native_exponentialRampToValueAtTime (Math_max minOutput (fromType p v)) t]\<rparr>)
      else Inl (AssertionError, p))"
  by (simp add: exponentialRampToValueAtTime_def toSeconds_def Let_def)

lemma setTargetAtTime_Fin:
  "setTargetAtTime p v (Fin t) (Fin tau) =
     (if 0 < tau \<and> isFinite (fromType p v) then
        Inr (p\<lparr>events := Timeline_add (events p) (SetTargetAtTime t (fromType p v) tau),
               native := native p @ [Native_setTargetAtTime (fromType p v) t tau]\<rparr>)
      else Inl (AssertionError, p))"
  by (simp add: setTargetAtTime_def toSeconds_def Let_def)

lemma setTargetAtTime_Inr:
  assumes "setTargetAtTime p v t tau = Inr q"
  shows "isFinite tau" "is_positive tau" "isFinite t" "isFinite (fromType p v)"
    "q = p\<lparr>events := Timeline_add (events p)
               (SetTargetAtTime (the_Fin t) (fromType p v) (the_Fin tau)),
            native := native p @
               [Native_setTargetAtTime (fromType p v) (the_Fin t) (the_Fin tau)]\<rparr>"
  using assms by (auto simp: setTargetAtTime_def toSeconds_def Let_def split: if_splits)


section \<open>Order and lookups of the timeline\<close>

lemma last_option_eq: "last_option xs = (if xs = [] then None else Some (last xs))"
  by (induction xs) auto

lemma last_drop_1: "1 < length xs \<Longrightarrow> last (drop 1 xs) = last xs"
  by (cases xs) auto

lemma find_append_None:
  "List.find P xs = None \<Longrightarrow> List.find P (xs @ ys) = List.find P ys"
  by (induction xs) (auto split: if_splits)

lemma Timeline_insert_append:
  "(\<forall>x \<in> set es. time x \<le> time e) \<Longrightarrow> Timeline_insert e es = es @ [e]"
  by (induction es) auto

lemma set_Timeline_insert: "set (Timeline_insert e es) = insert e (set es)"
  by (induction es) auto

lemma ordered_Nil [simp]: "ordered []"
  by (simp add: ordered_def)

lemma ordered_Cons: "ordered (x # xs) \<longleftrightarrow> (\<forall>y \<in> set xs. time x \<le> time y) \<and> ordered xs"
  by (auto simp: ordered_def)

lemma ordered_Timeline_insert: "ordered es \<Longrightarrow> ordered (Timeline_insert e es)"
  by (induction es) (auto simp: ordered_Cons set_Timeline_insert ordered_def)

lemma ordered_filter: "ordered es \<Longrightarrow> ordered (filter P es)"
  by (induction es) (auto simp: ordered_Cons)

lemma ordered_drop: "ordered es \<Longrightarrow> ordered (drop n es)"
  by (simp add: ordered_def drop_map [symmetric] sorted_wrt_drop)

lemma ordered_Timeline_add: "ordered es \<Longrightarrow> ordered (Timeline_add es e)"
  by (simp add: Timeline_add_def ordered_Timeline_insert ordered_drop)

lemma ordered_Timeline_cancel: "ordered es \<Longrightarrow> ordered (Timeline_cancel es t)"
  by (simp add: Timeline_cancel_def ordered_filter)

lemma Timeline_add_append:
  assumes "\<forall>x \<in> set es. time x \<le> time e"
  shows "Timeline_add es e = (if memory \<le> length es then drop 1 es else es) @ [e]"
proof -
  have "\<forall>x \<in> set (drop 1 es). time x \<le> time e"
    using assms by (meson in_set_dropD)
  then show ?thesis using assms by (simp add: Timeline_add_def Timeline_insert_append)
qed

lemma Timeline_add_last:
  assumes "\<forall>x \<in> set es. time x \<le> time e"
  shows "\<exists>es'. Timeline_add es e = es' @ [e] \<and> (\<forall>x \<in> set es'. time x \<le> time e)"
  using assms by (auto simp: Timeline_add_append dest: in_set_dropD)

lemma Timeline_add_after_last:
  assumes "\<forall>x \<in> set es. time x \<le> time e" and "time e \<le> time e'"
  shows "\<exists>es'. Timeline_add (es @ [e]) e' = es' @ [e, e'] \<and> (\<forall>x \<in> set es'. time x \<le> time e)"
proof (cases "memory \<le> length (es @ [e])")
  case True
  then have "es \<noteq> []" by (auto simp: memory_def)
  then have d: "drop 1 (es @ [e]) = drop 1 es @ [e]" by (cases es) simp_all
  have "\<forall>x \<in> set (es @ [e]). time x \<le> time e'" using assms by auto
  then have "Timeline_add (es @ [e]) e' = drop 1 es @ [e, e']"
    using True d by (simp add: Timeline_add_append)
  moreover have "\<forall>x \<in> set (drop 1 es). time x \<le> time e"
    using assms(1) by (meson in_set_dropD)
  ultimately show ?thesis by blast
next
  case False
  have "\<forall>x \<in> set (es @ [e]). time x \<le> time e'" using assms by auto
  then have "Timeline_add (es @ [e]) e' = es @ [e, e']"
    using False by (simp add: Timeline_add_append)
  then show ?thesis using assms(1) by blast
qed



lemma Timeline_get_None:
  "(\<forall>e \<in> set es. t < time e) \<Longrightarrow> Timeline_get es t = None"
  by (simp add: Timeline_get_def last_option_eq filter_empty_conv not_le)

lemma Timeline_get_last:
  "time e \<le> t \<Longrightarrow> Timeline_get (es @ [e]) t = Some e"
  by (simp add: Timeline_get_def last_option_eq)

lemma Timeline_get_Some:
  "Timeline_get es t = Some b \<Longrightarrow>
     filter (\<lambda>e. time e \<le> t) es \<noteq> [] \<and> b = last (filter (\<lambda>e. time e \<le> t) es)"
  by (auto simp: Timeline_get_def last_option_eq split: if_splits)

lemma Timeline_get_time: "Timeline_get es t = Some b \<Longrightarrow> time b \<le> t"
proof -
  assume "Timeline_get es t = Some b"
  from Timeline_get_Some [OF this] have "b \<in> set (filter (\<lambda>e. time e \<le> t) es)"
    using last_in_set [of "filter (\<lambda>e. time e \<le> t) es"] by simp
  then show ?thesis by simp
qed

lemma Timeline_get_before_last:
  assumes "\<forall>x \<in> set es. time x \<le> time e" and "time e \<le> t" and "t < time e'"
  shows "Timeline_get (es @ [e, e']) t = Some e"
    and "Timeline_getAfter (es @ [e, e']) t = Some e'"
proof -
  have "filter (\<lambda>x. time x \<le> t) es = es" using assms(1,2) by (auto simp: filter_id_conv)
  then show "Timeline_get (es @ [e, e']) t = Some e"
    using assms(2,3) by (simp add: Timeline_get_def last_option_eq)
  have "List.find (\<lambda>x. t < time x) es = None"
    using assms(1,2) by (auto simp: find_None_iff)
  then show "Timeline_getAfter (es @ [e, e']) t = Some e'"
    using assms(2,3) by (simp add: Timeline_getAfter_def find_append_None)
qed

lemma Timeline_getAfter_None:
  "Timeline_getAfter es t = None \<longleftrightarrow> (\<forall>x \<in> set es. time x \<le> t)"
  by (auto simp: Timeline_getAfter_def find_None_iff not_less)

lemma Timeline_getAfter_Some:
  "Timeline_getAfter es t = Some a \<Longrightarrow> a \<in> set es \<and> t < time a"
  by (auto simp: Timeline_getAfter_def find_Some_iff)

lemma Timeline_cancel_after:
  "ordered es \<Longrightarrow> Timeline_getAfter es t = Some a \<Longrightarrow>
     Timeline_cancel es (time a) = filter (\<lambda>e. time e \<le> t) es"
proof (induction es)
  case Nil
  then show ?case by (simp add: Timeline_getAfter_def)
next
  case (Cons x xs)
  show ?case
  proof (cases "t < time x")
    case True
    then have a: "a = x" using Cons.prems(2) by (simp add: Timeline_getAfter_def)
    have "\<forall>y \<in> set xs. time x \<le> time y" using Cons.prems(1) by (simp add: ordered_Cons)
    then have "filter (\<lambda>e. time e < time x) xs = []" "filter (\<lambda>e. time e \<le> t) xs = []"
      using True by (auto simp: filter_empty_conv)
    then show ?thesis using True a by (simp add: Timeline_cancel_def)
  next
    case False
    then have "Timeline_getAfter xs t = Some a"
      using Cons.prems(2) by (simp add: Timeline_getAfter_def)
    moreover have "ordered xs" using Cons.prems(1) by (simp add: ordered_Cons)
    ultimately have ih: "Timeline_cancel xs (time a) = filter (\<lambda>e. time e \<le> t) xs"
      and "t < time a"
      using Cons.IH Timeline_getAfter_Some by blast+
    then show ?thesis using False by (simp add: Timeline_cancel_def)
  qed
qed

lemma Timeline_cancel_none_after:
  "Timeline_getAfter es t = None \<Longrightarrow> 0 < s \<Longrightarrow> Timeline_cancel es (t + s) = es"
  by (simp add: Timeline_getAfter_None Timeline_cancel_def filter_id_conv) force

lemma Timeline_cancel_le:
  "Timeline_getAfter es t = None \<Longrightarrow> \<forall>x \<in> set (Timeline_cancel es u). time x \<le> t"
  by (simp add: Timeline_getAfter_None Timeline_cancel_def)

text \<open>
  Every method keeps the timeline in time order, and a new parameter's timeline is
  empty: the order is an invariant of the states that calls can reach.
\<close>

lemma scheduling_keeps_order:
  assumes "ordered (events p)"
  shows "setValueAtTime p v t = Inr q \<Longrightarrow> ordered (events q)"
    and "linearRampToValueAtTime p v t = Inr q \<Longrightarrow> ordered (events q)"
    and "exponentialRampToValueAtTime p v t = Inr q \<Longrightarrow> ordered (events q)"
    and "setTargetAtTime p v t tau = Inr q \<Longrightarrow> ordered (events q)"
    and "cancelScheduledValues p t = Inr q \<Longrightarrow> ordered (events q)"
  using assms
  by (auto simp: setValueAtTime_def linearRampToValueAtTime_def
      exponentialRampToValueAtTime_def setTargetAtTime_def cancelScheduledValues_def
      Let_def ordered_Timeline_add ordered_Timeline_cancel split: if_splits)

lemma cancelAndHoldAtTime_keeps_order:
  assumes "ordered (events p)" and "cancelAndHoldAtTime p t = Inr q"
  shows "ordered (events q)"
  using assms
  by (auto simp: cancelAndHoldAtTime_def Let_def and_then_def linearRampToValueAtTime_def
      exponentialRampToValueAtTime_def ordered_Timeline_add ordered_Timeline_cancel
      split: if_splits option.splits sum.splits)

section \<open>The value after the last event\<close>

lemma getValueAtTime_last:
  assumes "events q = es @ [e]" and "\<forall>x \<in> set es. time x \<le> time e"
    and "time e \<le> max t 0" and "\<not> is_SetTargetAtTime e"
  shows "getValueAtTime q t = toType q (val e)"
proof -
  have "Timeline_get (events q) (max t 0) = Some e"
    using assms(1,3) by (simp add: Timeline_get_last)
  moreover have "Timeline_getAfter (events q) (max t 0) = None"
    using assms(1,2,3) by (auto simp: Timeline_getAfter_None)
  ultimately show ?thesis using assms(4) by (simp add: getValueAtTime_def)
qed

section \<open>The value before the first event\<close>

text \<open>
  C10, as the code has it. The query time is clamped to zero first, so the times that
  read the initial value are those whose clamped time \<open>max t 0\<close> lies strictly before
  every recorded event; with no event at all, every time does. The result is the
  initial value converted to the parameter's units.
\<close>

theorem getValueAtTime_before_first:
  assumes "\<forall>e \<in> set (events p). max t 0 < time e"
  shows "getValueAtTime p t = toType p (initialValue p)"
  using Timeline_get_None [OF assms] by (simp add: getValueAtTime_def Let_def)

theorem getValueAtTime_before_first_witness:
  "getValueAtTime (number_param\<lparr>events := [SetValueAtTime 1 (Fin 5)]\<rparr>) (1 / 2) = Fin 0
   \<and> getValueAtTime number_param 3 = Fin 0"
  using getValueAtTime_before_first
      [of "number_param\<lparr>events := [SetValueAtTime 1 (Fin 5)]\<rparr>" "1 / 2"]
    getValueAtTime_before_first [of "number_param" 3]
  by (simp add: number_param_def toType_def)

text \<open>
  The claim as it is written fails at a negative query time: with one event at time
  \<open>0\<close> holding \<open>5\<close> and the initial value \<open>0\<close>, the query at \<open>-1\<close> is strictly before the
  earliest event and reads \<open>5\<close>.
\<close>

theorem getValueAtTime_negative_query_counterexample:
  "list_all (\<lambda>e. - 1 < time e) (events (number_param\<lparr>events := [SetValueAtTime 0 (Fin 5)]\<rparr>))
   \<and> getValueAtTime (number_param\<lparr>events := [SetValueAtTime 0 (Fin 5)]\<rparr>) (- 1) = Fin 5
   \<and> toType (number_param\<lparr>events := [SetValueAtTime 0 (Fin 5)]\<rparr>)
        (initialValue (number_param\<lparr>events := [SetValueAtTime 0 (Fin 5)]\<rparr>)) = Fin 0"
  by (simp add: getValueAtTime_def Timeline_get_def Timeline_getAfter_def toType_def
      number_param_def)

section \<open>The example parameters\<close>

lemma number_param_simps [simp]:
  "fromType number_param x = x" "toType number_param x = x"
  "events number_param = []" "native number_param = []"
  "initialValue number_param = Fin 0" "0 < sampleTime number_param"
  by (simp_all add: number_param_def fromType_def toType_def)

lemma normalRange_param_simps [simp]:
  "fromType normalRange_param x = Math_min (Math_max x (Fin 0)) (Fin 1)"
  "toType normalRange_param x = x"
  "events normalRange_param = []" "native normalRange_param = []"
  "initialValue normalRange_param = Fin 0"
  by (simp_all add: normalRange_param_def number_param_def fromType_def toType_def)

section \<open>A linear ramp after a set value\<close>

lemma set_then_ramp_events:
  assumes "events p = []" and "\<not> convert p \<or> units p = Unit_number" and "t0 < t1"
  shows "and_then (setValueAtTime p (Fin v0) (Fin t0))
           (\<lambda>q. linearRampToValueAtTime q (Fin v1) (Fin t1)) =
         Inr (p\<lparr>events := [SetValueAtTime t0 (Fin v0), LinearRampToValueAtTime t1 (Fin v1)],
                native := native p @ [Native_setValueAtTime (Fin v0) t0,
                                      Native_linearRampToValueAtTime (Fin v1) t1]\<rparr>)"
  using assms(1,3)
  by (simp add: and_then_def setValueAtTime_Fin linearRampToValueAtTime_Fin
      no_conversion(1) [OF assms(2)] Timeline_add_def memory_def)

lemma set_then_ramp:
  assumes le: "\<forall>e \<in> set (events p). time e \<le> t0"
    and nc: "\<not> convert p \<or> units p = Unit_number" and lt: "t0 < t1"
  shows "\<exists>es ns. and_then (setValueAtTime p (Fin v0) (Fin t0))
                  (\<lambda>q. linearRampToValueAtTime q (Fin v1) (Fin t1)) =
               Inr (p\<lparr>events := es @ [SetValueAtTime t0 (Fin v0),
                                       LinearRampToValueAtTime t1 (Fin v1)],
                      native := ns\<rparr>)
           \<and> (\<forall>e \<in> set es. time e \<le> t0)"
proof -
  from Timeline_add_last [of "events p" "SetValueAtTime t0 (Fin v0)"] le
  obtain es where a: "Timeline_add (events p) (SetValueAtTime t0 (Fin v0)) =
      es @ [SetValueAtTime t0 (Fin v0)]" and les: "\<forall>x \<in> set es. time x \<le> t0" by auto
  from Timeline_add_after_last [of es "SetValueAtTime t0 (Fin v0)"
      "LinearRampToValueAtTime t1 (Fin v1)"] les lt
  obtain es' where b: "Timeline_add (es @ [SetValueAtTime t0 (Fin v0)])
        (LinearRampToValueAtTime t1 (Fin v1)) =
      es' @ [SetValueAtTime t0 (Fin v0), LinearRampToValueAtTime t1 (Fin v1)]"
    and les': "\<forall>x \<in> set es'. time x \<le> t0" by auto
  have "and_then (setValueAtTime p (Fin v0) (Fin t0))
          (\<lambda>q. linearRampToValueAtTime q (Fin v1) (Fin t1)) =
        Inr (p\<lparr>events := es' @ [SetValueAtTime t0 (Fin v0), LinearRampToValueAtTime t1 (Fin v1)],
               native := native p @ [Native_setValueAtTime (Fin v0) t0,
                                     Native_linearRampToValueAtTime (Fin v1) t1]\<rparr>)"
    by (simp add: and_then_def setValueAtTime_Fin linearRampToValueAtTime_Fin
        no_conversion(1) [OF nc] a b)
  then show ?thesis using les' by blast
qed

lemma getValueAtTime_set_then_ramp:
  assumes ev: "events q = es @ [SetValueAtTime t0 (Fin v0), LinearRampToValueAtTime t1 (Fin v1)]"
    and les: "\<forall>e \<in> set es. time e \<le> t0"
    and "0 \<le> t0" and "t0 < t1"
  shows "t0 \<le> t \<Longrightarrow> t \<le> t1 \<Longrightarrow>
           getValueAtTime q t = toType q (Fin (v0 + (v1 - v0) * ((t - t0) / (t1 - t0))))"
    and "t1 < t \<Longrightarrow> getValueAtTime q t = toType q (Fin v1)"
proof -
  have last: "getValueAtTime q t = toType q (Fin v1)" if "t1 \<le> t" for t
  proof -
    have "getValueAtTime q t = toType q (val (LinearRampToValueAtTime t1 (Fin v1)))"
      by (rule getValueAtTime_last [of q "es @ [SetValueAtTime t0 (Fin v0)]"])
        (use ev les assms(3,4) that in auto)
    then show ?thesis by simp
  qed
  {
    assume a: "t0 \<le> t" "t \<le> t1"
    then have m: "max t 0 = t" using assms(3) by simp
    show "getValueAtTime q t = toType q (Fin (v0 + (v1 - v0) * ((t - t0) / (t1 - t0))))"
    proof (cases "t = t1")
      case True
      then show ?thesis using last [of t] assms(4) by simp
    next
      case False
      then have lt: "t < t1" using a by simp
      have "Timeline_get (events q) t = Some (SetValueAtTime t0 (Fin v0))"
        "Timeline_getAfter (events q) t = Some (LinearRampToValueAtTime t1 (Fin v1))"
        unfolding ev
        using Timeline_get_before_last [of es "SetValueAtTime t0 (Fin v0)" t
            "LinearRampToValueAtTime t1 (Fin v1)"] les a(1) lt by simp_all
      then show ?thesis using assms(4) lt a
        by (simp add: getValueAtTime_def m linearInterpolate_def jsub_def)
    qed
  }
  {
    assume "t1 < t"
    then show "getValueAtTime q t = toType q (Fin v1)" using last [of t] by simp
  }
qed

text \<open>
  C1, as the code has it. On a parameter without unit conversion where no event is
  scheduled later than \<open>t0\<close> (a new parameter has none at all),
  \<^verbatim>\<open>setValueAtTime(v0, t0)\<close> then \<^verbatim>\<open>linearRampToValueAtTime(v1, t1)\<close> with
  \<open>0 \<le> t0 < t1\<close> both return, and afterwards the value at every \<open>t\<close> of \<open>[t0, t1]\<close> is
  \<open>v0 + (v1 - v0) * (t - t0) / (t1 - t0)\<close> and the value at every \<open>t > t1\<close> is \<open>v1\<close>.
\<close>

theorem linear_ramp_exact:
  assumes "\<forall>e \<in> set (events p). time e \<le> t0"
    and "\<not> convert p \<or> units p = Unit_number"
    and "0 \<le> t0" and "t0 < t1"
  shows "\<exists>q. and_then (setValueAtTime p (Fin v0) (Fin t0))
                (\<lambda>q. linearRampToValueAtTime q (Fin v1) (Fin t1)) = Inr q
           \<and> (\<forall>t. t0 \<le> t \<and> t \<le> t1 \<longrightarrow>
                  getValueAtTime q t = Fin (v0 + (v1 - v0) * ((t - t0) / (t1 - t0))))
           \<and> (\<forall>t. t1 < t \<longrightarrow> getValueAtTime q t = Fin v1)"
proof -
  from set_then_ramp [OF assms(1,2,4), of v0 v1] obtain es ns where
    ok: "and_then (setValueAtTime p (Fin v0) (Fin t0))
           (\<lambda>q. linearRampToValueAtTime q (Fin v1) (Fin t1)) =
         Inr (p\<lparr>events := es @ [SetValueAtTime t0 (Fin v0), LinearRampToValueAtTime t1 (Fin v1)],
                native := ns\<rparr>)"
    and les: "\<forall>e \<in> set es. time e \<le> t0" by blast
  let ?q = "p\<lparr>events := es @ [SetValueAtTime t0 (Fin v0), LinearRampToValueAtTime t1 (Fin v1)],
                native := ns\<rparr>"
  have ev: "events ?q = es @ [SetValueAtTime t0 (Fin v0), LinearRampToValueAtTime t1 (Fin v1)]"
    by simp
  have id: "toType p x = x" for x using no_conversion(2) [OF assms(2)] .
  show ?thesis
    using ok getValueAtTime_set_then_ramp [OF ev les assms(3,4)]
    by (auto simp: id)
qed

text \<open>The scenario of the specification: \<open>0\<close> at \<open>0\<close>, a ramp to \<open>1\<close> at \<open>1\<close>.\<close>

theorem linear_ramp_exact_witness:
  "value_after (and_then (setValueAtTime number_param (Fin 0) (Fin 0))
       (\<lambda>q. linearRampToValueAtTime q (Fin 1) (Fin 1))) (1 / 2) = Some (Fin (1 / 2))
   \<and> value_after (and_then (setValueAtTime number_param (Fin 0) (Fin 0))
       (\<lambda>q. linearRampToValueAtTime q (Fin 1) (Fin 1))) 1 = Some (Fin 1)
   \<and> value_after (and_then (setValueAtTime number_param (Fin 0) (Fin 0))
       (\<lambda>q. linearRampToValueAtTime q (Fin 1) (Fin 1))) 2 = Some (Fin 1)"
proof -
  have a: "\<forall>e \<in> set (events number_param). time e \<le> 0"
    "\<not> convert number_param \<or> units number_param = Unit_number"
    by (simp_all add: number_param_def)
  have b: "(0::real) \<le> 0" "(0::real) < 1" by simp_all
  from linear_ramp_exact [OF a b, of 0 1] obtain q where
    q: "and_then (setValueAtTime number_param (Fin 0) (Fin 0))
          (\<lambda>q. linearRampToValueAtTime q (Fin 1) (Fin 1)) = Inr q"
    and i: "\<forall>t. 0 \<le> t \<and> t \<le> 1 \<longrightarrow>
              getValueAtTime q t = Fin (0 + (1 - 0) * ((t - 0) / (1 - 0)))"
    and l: "\<forall>t. 1 < t \<longrightarrow> getValueAtTime q t = Fin 1"
    by blast
  have "getValueAtTime q (1 / 2) = Fin (1 / 2)" using i [rule_format, of "1 / 2"] by simp
  moreover have "getValueAtTime q 1 = Fin 1" using i [rule_format, of 1] by simp
  moreover have "getValueAtTime q 2 = Fin 1" using l [rule_format, of 2] by simp
  ultimately show ?thesis by (simp add: q value_after_def)
qed

text \<open>
  The claim as it is written fails when \<open>t0\<close> is negative: after
  \<^verbatim>\<open>setValueAtTime(0, -1)\<close> and \<^verbatim>\<open>linearRampToValueAtTime(1, 1)\<close> the query at
  \<open>t0 = -1\<close> is clamped to \<open>0\<close> and reads \<open>1/2\<close>, not \<open>v0 = 0\<close>.
\<close>

theorem linear_ramp_negative_start_counterexample:
  "value_after (and_then (setValueAtTime number_param (Fin 0) (Fin (- 1)))
       (\<lambda>q. linearRampToValueAtTime q (Fin 1) (Fin 1))) (- 1) = Some (Fin (1 / 2))"
proof -
  have a: "events number_param = []"
    "\<not> convert number_param \<or> units number_param = Unit_number"
    by (simp_all add: number_param_def)
  show ?thesis
    unfolding set_then_ramp_events [OF a, of "- 1" 1 0 1, simplified]
    by (simp add: value_after_def getValueAtTime_def Timeline_get_def Timeline_getAfter_def
        linearInterpolate_def jsub_def toType_def number_param_def)
qed

section \<open>The approach to a target\<close>

lemma target_value:
  assumes t: "0 \<le> t"
    and b: "Timeline_get (events p) t = Some (SetTargetAtTime t0 (Fin v1) tau)"
    and tau: "0 < tau"
    and a: "case Timeline_getAfter (events p) t of None \<Rightarrow> True | Some a \<Rightarrow> is_SetValueAtTime a"
    and v0: "(case Timeline_getBefore (events p) t0 of
                None \<Rightarrow> initialValue p | Some e \<Rightarrow> val e) = Fin v0"
  shows "getValueAtTime p t = toType p (Fin (v1 + (v0 - v1) * exp (- (t - t0) / tau)))"
proof -
  have m: "max t 0 = t" using t by simp
  have pv: "previousVal p (SetTargetAtTime t0 (Fin v1) tau) = Fin v0"
    using v0 by (simp add: previousVal_def)
  have "exponentialApproach (Fin t0) (Fin v0) (Fin v1) (Fin tau) (Fin t) =
      Fin (v1 + (v0 - v1) * exp (- (t - t0) / tau))"
    using tau by (simp add: exponentialApproach_def jsub_def)
  then show ?thesis using b a pv
    by (simp add: getValueAtTime_def m)
qed

text \<open>
  C2, as the code has it. At a query time \<open>t \<ge> 0\<close> where the event in effect is a
  \<^verbatim>\<open>setTargetAtTime\<close> event with start time \<open>t0\<close>, raw target \<open>v1\<close> and time constant
  \<open>tau > 0\<close> (what a call of \<^verbatim>\<open>setTargetAtTime\<close> records), and the next event, if any, is a
  \<^verbatim>\<open>setValueAtTime\<close> event, \<open>t0 \<le> t\<close> and the value read is
  \<open>v1 + (v0 - v1) * exp (- (t - t0) / tau)\<close> converted to the parameter's units, \<open>v0\<close> being
  the raw value of the event just before \<open>t0\<close>, or the initial value when there is none.
\<close>

theorem target_approach_value:
  assumes "0 \<le> t"
    and "Timeline_get (events p) t = Some (SetTargetAtTime t0 (Fin v1) tau)"
    and "0 < tau"
    and "case Timeline_getAfter (events p) t of None \<Rightarrow> True | Some a \<Rightarrow> is_SetValueAtTime a"
    and "(case Timeline_getBefore (events p) t0 of
            None \<Rightarrow> initialValue p | Some e \<Rightarrow> val e) = Fin v0"
  shows "t0 \<le> t
     \<and> getValueAtTime p t = toType p (Fin (v1 + (v0 - v1) * exp (- (t - t0) / tau)))"
  using target_value [OF assms] Timeline_get_time [OF assms(2)] by simp

lemma one_minus_inverse_e: "632 / 1000 < 1 - exp (- 1 :: real)" "1 - exp (- 1 :: real) < 633 / 1000"
proof -
  from Maclaurin_exp_le [of "- 1" 8] obtain u :: real where
    u: "\<bar>u\<bar> \<le> 1" and e: "exp (- 1) = (\<Sum>m<8. ((- 1) ^ m) / fact m) + (exp u / fact 8) * (- 1) ^ 8"
    by auto
  have s: "(\<Sum>m<8. ((- 1 :: real) ^ m) / fact m) = 103 / 280"
    by (simp add: numeral_eq_Suc lessThan_Suc fact_reduce)
  have f: "fact 8 = (40320 :: real)" by (simp add: fact_numeral)
  have e': "exp (- 1 :: real) = 103 / 280 + exp u / 40320" unfolding e s f by simp
  have "exp u \<le> exp 1" using u by simp
  then have le: "exp u \<le> 3" using exp_le by linarith
  have ge: "0 < exp u" by simp
  show "632 / 1000 < 1 - exp (- 1 :: real)" unfolding e' using le by linarith
  show "1 - exp (- 1 :: real) < 633 / 1000" unfolding e' using ge by linarith
qed

lemma setTarget_number_param:
  "0 < tau \<Longrightarrow> setTargetAtTime number_param (Fin v) (Fin t) (Fin tau) =
     Inr (number_param\<lparr>events := [SetTargetAtTime t (Fin v) tau],
            native := [Native_setTargetAtTime (Fin v) t tau]\<rparr>)"
  by (simp add: setTargetAtTime_Fin Timeline_add_def memory_def)

text \<open>
  The scenario of the specification: from the initial value \<open>0\<close>, the target \<open>1\<close> at time
  \<open>0\<close> with the time constant \<open>0.1\<close> reads \<open>1 - e\<^sup>-\<^sup>1\<close> at \<open>0.1\<close>, between \<open>0.632\<close> and \<open>0.633\<close>.
\<close>

theorem target_approach_value_witness:
  "value_after (setTargetAtTime number_param (Fin 1) (Fin 0) (Fin (1 / 10))) (1 / 10) =
     Some (Fin (1 - exp (- 1)))
   \<and> 632 / 1000 < 1 - exp (- 1 :: real) \<and> 1 - exp (- 1 :: real) < 633 / 1000"
proof -
  let ?q = "number_param\<lparr>events := [SetTargetAtTime 0 (Fin 1) (1 / 10)],
            native := [Native_setTargetAtTime (Fin 1) 0 (1 / 10)]\<rparr>"
  have 1: "(0::real) \<le> 1 / 10" by simp
  have 2: "Timeline_get (events ?q) (1 / 10) = Some (SetTargetAtTime 0 (Fin 1) (1 / 10))"
    by (simp add: Timeline_get_def)
  have 3: "(0::real) < 1 / 10" by simp
  have 4: "case Timeline_getAfter (events ?q) (1 / 10) of
      None \<Rightarrow> True | Some a \<Rightarrow> is_SetValueAtTime a"
    by (simp add: Timeline_getAfter_def)
  have 5: "(case Timeline_getBefore (events ?q) 0 of
      None \<Rightarrow> initialValue ?q | Some e \<Rightarrow> val e) = Fin 0"
    by (simp add: Timeline_getBefore_def)
  from target_approach_value [OF 1 2 3 4 5]
  have "getValueAtTime ?q (1 / 10) = Fin (1 - exp (- 1))" by simp
  then show ?thesis
    using one_minus_inverse_e by (simp add: setTarget_number_param value_after_def)
qed

text \<open>
  The claim as it is written fails in two ways. A target of \<open>1\<close> set at \<open>t0 = -1\<close> with the
  time constant \<open>1\<close> reads \<open>1 - e\<^sup>-\<^sup>1\<close> at the query time \<open>-1\<close>, which is clamped to \<open>0\<close>; the
  formula at \<open>t = t0\<close> gives \<open>v0 = 0\<close>. On a parameter of unit \<^verbatim>\<open>"normalRange"\<close>,
  \<^verbatim>\<open>setTargetAtTime(2, 0, 1)\<close> records the clamped target \<open>1\<close> and reads \<open>1 - e\<^sup>-\<^sup>1\<close> at time
  \<open>1\<close>; the formula with \<open>v1 = 2\<close> gives \<open>2 - 2 e\<^sup>-\<^sup>1\<close>.
\<close>

theorem target_approach_counterexample:
  "value_after (setTargetAtTime number_param (Fin 1) (Fin (- 1)) (Fin 1)) (- 1) =
     Some (Fin (1 - exp (- 1)))
   \<and> value_after (setTargetAtTime normalRange_param (Fin 2) (Fin 0) (Fin 1)) 1 =
     Some (Fin (1 - exp (- 1)))
   \<and> 1 - exp (- 1 :: real) \<noteq> 0
   \<and> 1 - exp (- 1 :: real) \<noteq> 2 + (0 - 2) * exp (- (1 - 0) / 1)"
proof -
  let ?q = "number_param\<lparr>events := [SetTargetAtTime (- 1) (Fin 1) 1],
            native := [Native_setTargetAtTime (Fin 1) (- 1) 1]\<rparr>"
  have a: "getValueAtTime ?q (- 1) = Fin (1 - exp (- 1))"
    by (simp add: getValueAtTime_def Timeline_get_def Timeline_getAfter_def
        Timeline_getBefore_def previousVal_def exponentialApproach_def jsub_def)
  let ?r = "normalRange_param\<lparr>events := [SetTargetAtTime 0 (Fin 1) 1],
            native := [Native_setTargetAtTime (Fin 1) 0 1]\<rparr>"
  have r: "setTargetAtTime normalRange_param (Fin 2) (Fin 0) (Fin 1) = Inr ?r"
    by (simp add: setTargetAtTime_Fin Timeline_add_def memory_def)
  have b: "getValueAtTime ?r 1 = Fin (1 - exp (- 1))"
    by (simp add: getValueAtTime_def Timeline_get_def Timeline_getAfter_def
        Timeline_getBefore_def previousVal_def exponentialApproach_def jsub_def)
  have c: "1 - exp (- 1 :: real) \<noteq> 0" using one_minus_inverse_e(1) by simp
  have d: "1 - exp (- 1 :: real) \<noteq> 2 + (0 - 2) * exp (- (1 - 0) / 1)"
    using one_minus_inverse_e(1) by simp
  show ?thesis using a b c d
    by (simp add: setTarget_number_param r value_after_def)
qed

section \<open>Cancel and hold\<close>

lemma hold_step:
  assumes "\<forall>x \<in> set (events q). time x \<le> t"
    and "q\<lparr>events := events p, native := native p\<rparr> = p"
  shows "held p t (q\<lparr>events := Timeline_add (events q)
                       (SetValueAtTime t (fromType p (getValueAtTime p t))),
                     native := ns\<rparr>)"
proof -
  obtain es' where "Timeline_add (events q) (SetValueAtTime t (fromType p (getValueAtTime p t)))
      = es' @ [SetValueAtTime t (fromType p (getValueAtTime p t))]"
    and "\<forall>x \<in> set es'. time x \<le> t"
    using Timeline_add_last [of "events q" "SetValueAtTime t (fromType p (getValueAtTime p t))"]
      assms(1) by auto
  moreover have "q\<lparr>events := A, native := B\<rparr> = p\<lparr>events := A, native := B\<rparr>" for A B
    using assms(2) by (cases q, cases p) simp
  ultimately show ?thesis unfolding held_def by auto
qed

lemma cancelAndHoldAtTime_held:
  assumes ord: "ordered (events p)" and ok: "cancelAndHoldAtTime p (Fin t) = Inr p'"
  shows "held p t p'"
proof -
  let ?v = "fromType p (getValueAtTime p t)"
  let ?p1 = "p\<lparr>native := native p @ [Native_cancelScheduledValues t]\<rparr>"
  show ?thesis
  proof (cases "Timeline_getAfter (events p) t")
    case None
    have le: "\<forall>x \<in> set (Timeline_cancel (events p) u). time x \<le> t" for u
      using Timeline_cancel_le [OF None] .
    have le0: "\<forall>x \<in> set (events p). time x \<le> t"
      using None by (simp add: Timeline_getAfter_None)
    show ?thesis
    proof (cases "case Timeline_get (events p) t of None \<Rightarrow> False | Some b \<Rightarrow> time b = t")
      case True
      let ?q = "?p1\<lparr>events := Timeline_cancel (events p) (t + sampleTime p)\<rparr>"
      have "p' = ?q\<lparr>events := Timeline_add (events ?q) (SetValueAtTime t ?v),
               native := native ?q @ [Native_setValueAtTime ?v t]\<rparr>"
        using ok None True by (simp add: cancelAndHoldAtTime_def toSeconds_def Let_def)
      moreover have "\<forall>x \<in> set (events ?q). time x \<le> t" using le by simp
      ultimately show ?thesis using hold_step [where q = "?q" and t = t and p = p] by simp
    next
      case False
      have "p' = ?p1\<lparr>events := Timeline_add (events ?p1) (SetValueAtTime t ?v),
               native := native ?p1 @ [Native_setValueAtTime ?v t]\<rparr>"
        using ok None False by (simp add: cancelAndHoldAtTime_def toSeconds_def Let_def)
      moreover have "\<forall>x \<in> set (events ?p1). time x \<le> t" using le0 by simp
      ultimately show ?thesis using hold_step [where q = "?p1" and t = t and p = p] by simp
    qed
  next
    case (Some a)
    let ?p2 = "?p1\<lparr>events := Timeline_cancel (events p) (time a)\<rparr>"
    have c: "Timeline_cancel (events p) (time a) = filter (\<lambda>e. time e \<le> t) (events p)"
      using Timeline_cancel_after [OF ord Some] .
    have le2: "\<forall>x \<in> set (events ?p2). time x \<le> t" by (simp add: c)
    show ?thesis
    proof (cases "case Timeline_get (events p) t of None \<Rightarrow> False | Some b \<Rightarrow> time b = t")
      case True
      have "p' = ?p2\<lparr>events := Timeline_add (events ?p2) (SetValueAtTime t ?v),
               native := native ?p2 @ [Native_setValueAtTime ?v t]\<rparr>"
        using ok Some True by (simp add: cancelAndHoldAtTime_def toSeconds_def Let_def)
      then show ?thesis using hold_step [where q = "?p2" and t = t and p = p] le2 by simp
    next
      case False
      consider (lin) "is_LinearRampToValueAtTime a"
        | (exp) "is_ExponentialRampToValueAtTime a"
        | (other) "\<not> is_LinearRampToValueAtTime a" "\<not> is_ExponentialRampToValueAtTime a"
        by blast
      then show ?thesis
      proof cases
        case lin
        let ?w = "fromType p (toType p ?v)"
        let ?q = "?p2\<lparr>events := Timeline_add (events ?p2) (LinearRampToValueAtTime t ?w),
                       native := native ?p2 @ [Native_linearRampToValueAtTime ?w t]\<rparr>"
        have fin: "isFinite ?w" and
          "p' = ?q\<lparr>events := Timeline_add (events ?q) (SetValueAtTime t ?v),
               native := native ?q @ [Native_setValueAtTime ?v t]\<rparr>"
          using ok Some False lin
          by (auto simp: cancelAndHoldAtTime_def toSeconds_def Let_def and_then_def
              linearRampToValueAtTime_Fin split: if_splits)
        moreover have "\<forall>x \<in> set (events ?q). time x \<le> t"
          using Timeline_add_last [of "events ?p2" "LinearRampToValueAtTime t ?w"] le2 by auto
        ultimately show ?thesis using hold_step [where q = "?q" and t = t and p = p] by simp
      next
        case exp
        then have nl: "\<not> is_LinearRampToValueAtTime a" by (cases a) simp_all
        let ?w = "Math_max minOutput (fromType p (toType p ?v))"
        let ?q = "?p2\<lparr>events := Timeline_add (events ?p2) (ExponentialRampToValueAtTime t ?w),
                       native := native ?p2 @ [Native_exponentialRampToValueAtTime ?w t]\<rparr>"
        have fin: "isFinite ?w" and
          "p' = ?q\<lparr>events := Timeline_add (events ?q) (SetValueAtTime t ?v),
               native := native ?q @ [Native_setValueAtTime ?v t]\<rparr>"
          using ok Some False exp nl
          by (auto simp: cancelAndHoldAtTime_def toSeconds_def Let_def and_then_def
              exponentialRampToValueAtTime_Fin split: if_splits)
        moreover have "\<forall>x \<in> set (events ?q). time x \<le> t"
          using Timeline_add_last [of "events ?p2" "ExponentialRampToValueAtTime t ?w"] le2
          by auto
        ultimately show ?thesis using hold_step [where q = "?q" and t = t and p = p] by simp
      next
        case other
        have "p' = ?p2\<lparr>events := Timeline_add (events ?p2) (SetValueAtTime t ?v),
               native := native ?p2 @ [Native_setValueAtTime ?v t]\<rparr>"
          using ok Some False other
          by (simp add: cancelAndHoldAtTime_def toSeconds_def Let_def)
        then show ?thesis using hold_step [where q = "?p2" and t = t and p = p] le2 by simp
      qed
    qed
  qed
qed

lemma held_fields:
  assumes "held q t q'"
  shows "fromType q' x = fromType q x" "toType q' x = toType q x"
  using assms by (auto simp: held_def)







section \<open>Cancel and hold at the time of an event\<close>

text \<open>
  C4, as the code has it. When an event is recorded at exactly \<open>t\<close> (the lookup at \<open>t\<close>
  returns an event of time \<open>t\<close>), \<^verbatim>\<open>cancelAndHoldAtTime(t)\<close> returns; it keeps that event,
  removes every event after \<open>t\<close>, and then adds a \<^verbatim>\<open>setValueAtTime\<close> event at \<open>t\<close> with the
  value that the reconstruction gave at \<open>t\<close>. That event is the last of the timeline and
  the one that a lookup at \<open>t\<close> returns. The timeline is then the events at or before \<open>t\<close>
  followed by the new event, less the single oldest one when those events already fill
  the capacity of \<open>1000\<close>. Below the capacity every event at or before \<open>t\<close> is kept, and the
  events at or after \<open>t\<close> are then those that were recorded at \<open>t\<close>, followed by the new
  one.
\<close>

theorem cancelAndHoldAtTime_event_at_time:
  assumes ord: "ordered (events p)" and b: "Timeline_get (events p) t = Some b"
    and bt: "time b = t" and st: "0 < sampleTime p"
  shows "\<exists>p'. cancelAndHoldAtTime p (Fin t) = Inr p'
           \<and> events p' = Timeline_add (filter (\<lambda>e. time e \<le> t) (events p))
                 (SetValueAtTime t (fromType p (getValueAtTime p t)))
           \<and> b \<in> set (events p')
           \<and> last (events p') = SetValueAtTime t (fromType p (getValueAtTime p t))
           \<and> Timeline_get (events p') t =
                 Some (SetValueAtTime t (fromType p (getValueAtTime p t)))
           \<and> events p' =
                 (if memory \<le> length (filter (\<lambda>e. time e \<le> t) (events p))
                  then drop 1 (filter (\<lambda>e. time e \<le> t) (events p))
                  else filter (\<lambda>e. time e \<le> t) (events p))
                 @ [SetValueAtTime t (fromType p (getValueAtTime p t))]
           \<and> (length (filter (\<lambda>e. time e \<le> t) (events p)) < memory \<longrightarrow>
                 (\<forall>e \<in> set (events p). time e \<le> t \<longrightarrow> e \<in> set (events p'))
                 \<and> filter (\<lambda>e. t \<le> time e) (events p') =
                     filter (\<lambda>e. time e = t) (events p)
                     @ [SetValueAtTime t (fromType p (getValueAtTime p t))])"
proof -
  let ?v = "fromType p (getValueAtTime p t)"
  let ?F = "filter (\<lambda>e. time e \<le> t) (events p)"
  let ?p' = "p\<lparr>events := Timeline_add ?F (SetValueAtTime t ?v),
                native := native p @ [Native_cancelScheduledValues t,
                                      Native_setValueAtTime ?v t]\<rparr>"
  have c: "(case Timeline_getAfter (events p) t of
              Some a \<Rightarrow> Timeline_cancel (events p) (time a)
            | None \<Rightarrow> Timeline_cancel (events p) (t + sampleTime p)) = ?F"
  proof (cases "Timeline_getAfter (events p) t")
    case None
    then have "?F = events p" by (simp add: Timeline_getAfter_None)
    then show ?thesis using None Timeline_cancel_none_after [OF None st] by simp
  next
    case (Some a)
    then show ?thesis using Timeline_cancel_after [OF ord Some] by simp
  qed
  have ok: "cancelAndHoldAtTime p (Fin t) = Inr ?p'"
    using b bt c
    by (cases "Timeline_getAfter (events p) t")
      (simp_all add: cancelAndHoldAtTime_def toSeconds_def Let_def)
  have app: "Timeline_add ?F (SetValueAtTime t ?v) =
      (if memory \<le> length ?F then drop 1 ?F else ?F) @ [SetValueAtTime t ?v]"
    by (rule Timeline_add_append) simp
  from Timeline_get_Some [OF b] have ne: "?F \<noteq> []" and bl: "b = last ?F" by simp_all
  have "b \<in> set (if memory \<le> length ?F then drop 1 ?F else ?F)"
  proof (cases "memory \<le> length ?F")
    case True
    then have "1 < length ?F" by (simp add: memory_def)
    then have "last (drop 1 ?F) = b" "drop 1 ?F \<noteq> []" using bl last_drop_1 by auto
    then have "b \<in> set (drop 1 ?F)" using last_in_set [of "drop 1 ?F"] by simp
    then show ?thesis using True by simp
  next
    case False
    have "b \<in> set ?F" unfolding bl using ne by (rule last_in_set)
    then show ?thesis using False by (simp only: if_False)
  qed
  then have "b \<in> set (events ?p')" by (simp add: app)
  moreover have "last (events ?p') = SetValueAtTime t ?v" by (simp add: app)
  moreover have "Timeline_get (events ?p') t = Some (SetValueAtTime t ?v)"
    by (simp add: app Timeline_get_last)
  moreover have "events ?p' =
      (if memory \<le> length ?F then drop 1 ?F else ?F) @ [SetValueAtTime t ?v]"
    using app by simp
  moreover have "length ?F < memory \<longrightarrow>
      (\<forall>e \<in> set (events p). time e \<le> t \<longrightarrow> e \<in> set (events ?p'))
      \<and> filter (\<lambda>e. t \<le> time e) (events ?p') =
          filter (\<lambda>e. time e = t) (events p) @ [SetValueAtTime t ?v]"
  proof
    assume "length ?F < memory"
    then have e: "events ?p' = ?F @ [SetValueAtTime t ?v]" using app by simp
    have "filter (\<lambda>e. t \<le> time e) (filter (\<lambda>e. time e \<le> t) es) =
        filter (\<lambda>e. time e = t) es" for es :: Timeline
      by (induction es) auto
    then have "filter (\<lambda>e. t \<le> time e) ?F = filter (\<lambda>e. time e = t) (events p)" .
    then show "(\<forall>e \<in> set (events p). time e \<le> t \<longrightarrow> e \<in> set (events ?p'))
      \<and> filter (\<lambda>e. t \<le> time e) (events ?p') =
          filter (\<lambda>e. time e = t) (events p) @ [SetValueAtTime t ?v]"
      unfolding e by simp
  qed
  ultimately show ?thesis using ok by (intro exI [of _ ?p']) simp
qed

theorem cancelAndHoldAtTime_event_at_time_witness:
  "events_after (cancelAndHoldAtTime
      (number_param\<lparr>events := [LinearRampToValueAtTime 1 (Fin 5),
                                LinearRampToValueAtTime 2 (Fin 7)]\<rparr>) (Fin 1)) =
     Some [LinearRampToValueAtTime 1 (Fin 5), SetValueAtTime 1 (Fin 5)]"
proof -
  let ?p = "number_param\<lparr>events := [LinearRampToValueAtTime 1 (Fin 5),
                                LinearRampToValueAtTime 2 (Fin 7)]\<rparr>"
  have 1: "ordered (events ?p)" by (simp add: ordered_def)
  have 2: "Timeline_get (events ?p) 1 = Some (LinearRampToValueAtTime 1 (Fin 5))"
    by (simp add: Timeline_get_def)
  have 3: "time (LinearRampToValueAtTime 1 (Fin 5)) = 1" by simp
  have 4: "0 < sampleTime ?p" by simp
  have v: "getValueAtTime ?p 1 = Fin 5"
    by (simp add: getValueAtTime_def Timeline_get_def Timeline_getAfter_def
        linearInterpolate_def jsub_def)
  from cancelAndHoldAtTime_event_at_time [OF 1 2 3 4] obtain p' where
    "cancelAndHoldAtTime ?p (Fin 1) = Inr p'"
    "events p' = Timeline_add (filter (\<lambda>e. time e \<le> 1) (events ?p))
                 (SetValueAtTime 1 (fromType ?p (getValueAtTime ?p 1)))"
    by blast
  then show ?thesis
    by (simp add: events_after_def v Timeline_add_def memory_def)
qed

text \<open>
  The claim as it is written fails: after \<^verbatim>\<open>linearRampToValueAtTime(5, 1)\<close>, the call
  \<^verbatim>\<open>cancelAndHoldAtTime(1)\<close> leaves the ramp event at time \<open>1\<close> in the timeline, before
  the new \<^verbatim>\<open>setValueAtTime\<close> event.
\<close>

theorem cancelAndHoldAtTime_keeps_event_counterexample:
  "events_after (and_then (linearRampToValueAtTime number_param (Fin 5) (Fin 1))
       (\<lambda>q. cancelAndHoldAtTime q (Fin 1))) =
     Some [LinearRampToValueAtTime 1 (Fin 5), SetValueAtTime 1 (Fin 5)]"
proof -
  let ?q = "number_param\<lparr>events := [LinearRampToValueAtTime 1 (Fin 5)],
              native := [Native_linearRampToValueAtTime (Fin 5) 1]\<rparr>"
  have a: "linearRampToValueAtTime number_param (Fin 5) (Fin 1) = Inr ?q"
    by (simp add: linearRampToValueAtTime_Fin Timeline_add_def memory_def)
  have v: "getValueAtTime ?q 1 = Fin 5"
    by (simp add: getValueAtTime_def Timeline_get_def Timeline_getAfter_def)
  have "events_after (cancelAndHoldAtTime ?q (Fin 1)) =
      Some [LinearRampToValueAtTime 1 (Fin 5), SetValueAtTime 1 (Fin 5)]"
    by (simp add: cancelAndHoldAtTime_def toSeconds_def Let_def v Timeline_get_def
        Timeline_getAfter_def Timeline_cancel_def Timeline_add_def memory_def
        events_after_def)
  then show ?thesis by (simp add: a and_then_def)
qed

section \<open>The ramp point\<close>







section \<open>Exponential ramps\<close>





section \<open>Invalid arguments\<close>

text \<open>
  C7, as the code has it. Each scheduling method throws, with the timeline and the
  trace of native calls as they were, when the time is not finite, or the tested
  value is not finite; \<^verbatim>\<open>setTargetAtTime\<close> also when the time constant is not finite or not
  greater than zero. The value that \<^verbatim>\<open>exponentialRampToValueAtTime\<close> tests is the clamped
  one, \<open>Math.max(1e-7, converted value)\<close>, which is not finite when the converted value is
  NaN or \<open>+Infinity\<close>.
\<close>

theorem invalid_arguments_fail:
  "(\<not> isFinite (fromType p v) \<or> \<not> isFinite t \<longrightarrow>
      setValueAtTime p v t = Inl (AssertionError, p))
   \<and> (\<not> isFinite (fromType p v) \<or> \<not> isFinite t \<longrightarrow>
      linearRampToValueAtTime p v t = Inl (AssertionError, p))
   \<and> (fromType p v = NaN \<or> fromType p v = PInf \<or> \<not> isFinite t \<longrightarrow>
      exponentialRampToValueAtTime p v t = Inl (AssertionError, p))
   \<and> (\<not> isFinite (fromType p v) \<or> \<not> isFinite t \<or> \<not> isFinite tau \<or> \<not> is_positive tau \<longrightarrow>
      setTargetAtTime p v t tau = Inl (AssertionError, p))
   \<and> (\<not> isFinite t \<longrightarrow> cancelScheduledValues p t = Inl (AssertionError, p))
   \<and> (\<not> isFinite t \<longrightarrow> cancelAndHoldAtTime p t = Inl (AssertionError, p))"
proof -
  have 1: "\<not> isFinite (fromType p v) \<or> \<not> isFinite t \<longrightarrow>
      setValueAtTime p v t = Inl (AssertionError, p)"
    by (auto simp: setValueAtTime_def toSeconds_def Let_def)
  have 2: "\<not> isFinite (fromType p v) \<or> \<not> isFinite t \<longrightarrow>
      linearRampToValueAtTime p v t = Inl (AssertionError, p)"
    by (auto simp: linearRampToValueAtTime_def toSeconds_def Let_def)
  have 3: "fromType p v = NaN \<or> fromType p v = PInf \<or> \<not> isFinite t \<longrightarrow>
      exponentialRampToValueAtTime p v t = Inl (AssertionError, p)"
    by (auto simp: exponentialRampToValueAtTime_def toSeconds_def Let_def minOutput_def)
  have 4: "\<not> isFinite (fromType p v) \<or> \<not> isFinite t \<or> \<not> isFinite tau \<or> \<not> is_positive tau \<longrightarrow>
      setTargetAtTime p v t tau = Inl (AssertionError, p)"
    by (auto simp: setTargetAtTime_def toSeconds_def Let_def)
  have 5: "\<not> isFinite t \<longrightarrow> cancelScheduledValues p t = Inl (AssertionError, p)"
    by (simp add: cancelScheduledValues_def toSeconds_def Let_def)
  have 6: "\<not> isFinite t \<longrightarrow> cancelAndHoldAtTime p t = Inl (AssertionError, p)"
    by (simp add: cancelAndHoldAtTime_def toSeconds_def Let_def)
  from 1 2 3 4 5 6 show ?thesis by blast
qed

theorem invalid_arguments_fail_witness:
  "setValueAtTime number_param NaN (Fin 0) = Inl (AssertionError, number_param)
   \<and> linearRampToValueAtTime number_param (Fin 1) PInf = Inl (AssertionError, number_param)
   \<and> exponentialRampToValueAtTime number_param PInf (Fin 1) = Inl (AssertionError, number_param)
   \<and> setTargetAtTime number_param (Fin 1) (Fin 0) (Fin 0) = Inl (AssertionError, number_param)
   \<and> cancelScheduledValues number_param NaN = Inl (AssertionError, number_param)
   \<and> cancelAndHoldAtTime number_param NInf = Inl (AssertionError, number_param)"
proof -
  have f: "fromType number_param x = x" for x
    by (simp add: number_param_def fromType_def)
  show ?thesis
    using invalid_arguments_fail [of number_param NaN "Fin 0" "Fin 1"]
      invalid_arguments_fail [of number_param "Fin 1" PInf "Fin 1"]
      invalid_arguments_fail [of number_param PInf "Fin 1" "Fin 1"]
      invalid_arguments_fail [of number_param "Fin 1" "Fin 0" "Fin 0"]
      invalid_arguments_fail [of number_param "Fin 1" NaN "Fin 1"]
      invalid_arguments_fail [of number_param "Fin 1" NInf "Fin 1"]
    by (simp add: f)
qed

text \<open>
  The claim as it is written fails for \<^verbatim>\<open>exponentialRampToValueAtTime\<close>: the converted
  value \<open>-Infinity\<close> is not finite, yet the clamp turns it into \<open>1e-7\<close> before the
  assertion, and the call returns with an event recorded and a native call made.
\<close>

theorem exponentialRamp_negative_infinity_counterexample:
  "\<not> isFinite (fromType number_param NInf)
   \<and> exponentialRampToValueAtTime number_param NInf (Fin 1) =
      Inr (number_param\<lparr>events := [ExponentialRampToValueAtTime 1 (Fin (1 / 10 ^ 7))],
             native := [Native_exponentialRampToValueAtTime (Fin (1 / 10 ^ 7)) 1]\<rparr>)"
  by (simp add: exponentialRampToValueAtTime_Fin no_conversion minOutput_def
      Timeline_add_def memory_def number_param_def)

section \<open>The value curve\<close>

lemma length_ramps_from [simp]: "length (ramps_from i ys st seg sc) = length ys"
  by (induction ys arbitrary: i) simp_all










section \<open>The exponential approach with an exact arrival\<close>

lemma ln_200_pos: "0 < ln (200::real)"
  by simp

lemma approach_constant:
  "jdiv (Math_log (jadd (Fin r) (Fin 1))) (Math_log (Fin 200)) =
     (if 0 < r + 1 then Fin (ln (r + 1) / ln 200)
      else if r + 1 = 0 then NInf else NaN)"
  by (simp add: signed_inf_def)

lemma approach_constant_ok:
  assumes "isFinite (jdiv (Math_log (jadd (Fin r) (Fin 1))) (Math_log (Fin 200)))"
    and "is_positive (jdiv (Math_log (jadd (Fin r) (Fin 1))) (Math_log (Fin 200)))"
  shows "0 < r"
    and "jdiv (Math_log (jadd (Fin r) (Fin 1))) (Math_log (Fin 200)) = Fin (ln (r + 1) / ln 200)"
proof -
  from assms(1) have p: "0 < r + 1"
    by (simp add: approach_constant signed_inf_def split: if_splits)
  then show c: "jdiv (Math_log (jadd (Fin r) (Fin 1))) (Math_log (Fin 200)) =
      Fin (ln (r + 1) / ln 200)"
    by (simp add: approach_constant)
  from assms(2) have "0 < ln (r + 1) / ln 200" unfolding c by simp
  then have "0 < ln (r + 1)" using ln_200_pos by (simp add: zero_less_divide_iff)
  then show "0 < r" using p by simp
qed

lemma exponentialApproach_steps:
  assumes ord: "ordered (events p)"
    and ok: "exponentialApproachValueAtTime p v (Fin t) (Fin r) = Inr p'"
  shows "0 < r"
    and "\<exists>q1 q2. setTargetAtTime p v (Fin t) (Fin (ln (r + 1) / ln 200)) = Inr q1
           \<and> cancelAndHoldAtTime q1 (Fin (t + r * (9 / 10))) = Inr q2
           \<and> linearRampToValueAtTime q2 v (Fin (t + r)) = Inr p'"
    and "getValueAtTime p' (t + r) = toType p (fromType p v)"
proof -
  let ?tau = "jdiv (Math_log (jadd (Fin r) (Fin 1))) (Math_log (Fin 200))"
  from ok obtain q1 q2 where
    s1: "setTargetAtTime p v (Fin t) ?tau = Inr q1"
    and s2: "cancelAndHoldAtTime q1 (Fin (t + r * (9 / 10))) = Inr q2"
    and s3: "linearRampToValueAtTime q2 v (Fin (t + r)) = Inr p'"
    by (auto simp: exponentialApproachValueAtTime_def toSeconds_def Let_def and_then_def
        split: sum.splits)
  from setTargetAtTime_Inr(1,2) [OF s1] approach_constant_ok [of r]
  have r: "0 < r" and tau: "?tau = Fin (ln (r + 1) / ln 200)" by simp_all
  show "0 < r" by (rule r)
  from s1 have "setTargetAtTime p v (Fin t) (Fin (ln (r + 1) / ln 200)) = Inr q1"
    by (simp only: tau)
  with s2 s3 show "\<exists>q1 q2. setTargetAtTime p v (Fin t) (Fin (ln (r + 1) / ln 200)) = Inr q1
           \<and> cancelAndHoldAtTime q1 (Fin (t + r * (9 / 10))) = Inr q2
           \<and> linearRampToValueAtTime q2 v (Fin (t + r)) = Inr p'"
    by blast
  from setTargetAtTime_Inr(5) [OF s1]
  have q1: "q1 = p\<lparr>events := Timeline_add (events p)
               (SetTargetAtTime t (fromType p v) (the_Fin ?tau)),
            native := native p @ [Native_setTargetAtTime (fromType p v) t (the_Fin ?tau)]\<rparr>"
    by simp
  then have o1: "ordered (events q1)" using ord by (simp add: ordered_Timeline_add)
  have c1: "fromType q1 x = fromType p x" "toType q1 x = toType p x" for x
    by (simp_all add: q1)
  from cancelAndHoldAtTime_held [OF o1 s2] have h: "held q1 (t + r * (9 / 10)) q2" .
  then obtain es where
    e2: "events q2 = es @ [SetValueAtTime (t + r * (9 / 10))
           (fromType q1 (getValueAtTime q1 (t + r * (9 / 10))))]"
    and le: "\<forall>x \<in> set es. time x \<le> t + r * (9 / 10)"
    by (auto simp: held_def)
  have c2: "fromType q2 x = fromType p x" "toType q2 x = toType p x" for x
    using held_fields [OF h] c1 by simp_all
  have le2: "\<forall>x \<in> set (events q2). time x \<le> t + r" using e2 le r by auto
  from s3 have fin: "isFinite (fromType p v)"
    and p': "p' = q2\<lparr>events := Timeline_add (events q2)
                 (LinearRampToValueAtTime (t + r) (fromType p v)),
               native := native q2 @ [Native_linearRampToValueAtTime (fromType p v) (t + r)]\<rparr>"
    by (auto simp: linearRampToValueAtTime_Fin c2 split: if_splits)
  from Timeline_add_last [of "events q2" "LinearRampToValueAtTime (t + r) (fromType p v)"] le2
  obtain es' where a: "Timeline_add (events q2) (LinearRampToValueAtTime (t + r) (fromType p v))
       = es' @ [LinearRampToValueAtTime (t + r) (fromType p v)]"
    and le': "\<forall>x \<in> set es'. time x \<le> t + r" by auto
  have "getValueAtTime p' (t + r) = toType p' (val (LinearRampToValueAtTime (t + r) (fromType p v)))"
    by (rule getValueAtTime_last [of p' es']) (use p' a le' in simp_all)
  then show "getValueAtTime p' (t + r) = toType p (fromType p v)"
    by (simp add: p' c2)
qed

lemma exponentialApproach_fresh:
  assumes "events p = []" and "isFinite (fromType p v)" and "0 < r"
  shows "\<exists>p'. exponentialApproachValueAtTime p v (Fin t) (Fin r) = Inr p'"
proof -
  let ?tau = "ln (r + 1) / ln 200"
  have tp: "0 < ?tau" using assms(3) by (simp add: zero_less_divide_iff)
  let ?q1 = "p\<lparr>events := [SetTargetAtTime t (fromType p v) ?tau],
               native := native p @ [Native_setTargetAtTime (fromType p v) t ?tau]\<rparr>"
  have s1: "setTargetAtTime p v (Fin t) (Fin ?tau) = Inr ?q1"
    using tp assms(1,2) by (simp add: setTargetAtTime_Fin Timeline_add_def memory_def)
  have g: "Timeline_get (events ?q1) (t + r * (9 / 10)) = Some (SetTargetAtTime t (fromType p v) ?tau)"
    "Timeline_getAfter (events ?q1) (t + r * (9 / 10)) = None"
    using assms(3) by (simp_all add: Timeline_get_def Timeline_getAfter_def)
  have "\<exists>q2. cancelAndHoldAtTime ?q1 (Fin (t + r * (9 / 10))) = Inr q2
           \<and> fromType q2 v = fromType p v"
    using assms(3) g by (simp add: cancelAndHoldAtTime_def toSeconds_def Let_def)
  then obtain q2 where s2: "cancelAndHoldAtTime ?q1 (Fin (t + r * (9 / 10))) = Inr q2"
    and f: "fromType q2 v = fromType p v" by blast
  have "\<exists>p'. linearRampToValueAtTime q2 v (Fin (t + r)) = Inr p'"
    using assms(2) f by (simp add: linearRampToValueAtTime_Fin)
  then show ?thesis using s1 s2 assms(3)
    by (auto simp: exponentialApproachValueAtTime_def toSeconds_def Let_def and_then_def
        approach_constant)
qed

text \<open>
  C9, as the code has it. On a timeline in time order, a call
  \<^verbatim>\<open>exponentialApproachValueAtTime(value, time, rampTime)\<close> that returns had
  \<open>rampTime > 0\<close> and was these three calls, each returning, in this order:
  \<^verbatim>\<open>setTargetAtTime\<close> at \<open>time\<close> with the time constant \<open>ln (rampTime + 1) / ln 200\<close>,
  \<^verbatim>\<open>cancelAndHoldAtTime\<close> at \<open>time + 0.9 * rampTime\<close>, and \<^verbatim>\<open>linearRampToValueAtTime\<close> to
  \<open>value\<close> at \<open>time + rampTime\<close>. The value read at \<open>time + rampTime\<close> is then the raw value
  that the ramp recorded, converted back: \<open>toType (fromType value)\<close>, which is \<open>value\<close> itself
  on a parameter without unit conversion.
\<close>

theorem exponentialApproachValueAtTime_arrives:
  assumes "ordered (events p)"
    and "exponentialApproachValueAtTime p v (Fin t) (Fin r) = Inr p'"
  shows "0 < r
     \<and> (\<exists>q1 q2. setTargetAtTime p v (Fin t) (Fin (ln (r + 1) / ln 200)) = Inr q1
           \<and> cancelAndHoldAtTime q1 (Fin (t + r * (9 / 10))) = Inr q2
           \<and> linearRampToValueAtTime q2 v (Fin (t + r)) = Inr p')
     \<and> getValueAtTime p' (t + r) = toType p (fromType p v)
     \<and> (\<not> convert p \<or> units p = Unit_number \<longrightarrow> getValueAtTime p' (t + r) = v)"
  using exponentialApproach_steps [OF assms] no_conversion [of p] by auto

theorem exponentialApproachValueAtTime_arrives_witness:
  "value_after (exponentialApproachValueAtTime number_param (Fin 3) (Fin 0) (Fin 1)) 1 =
     Some (Fin 3)"
proof -
  have "\<exists>p'. exponentialApproachValueAtTime number_param (Fin 3) (Fin 0) (Fin 1) = Inr p'"
    by (rule exponentialApproach_fresh) simp_all
  then obtain p' where
    ok: "exponentialApproachValueAtTime number_param (Fin 3) (Fin 0) (Fin 1) = Inr p'" ..
  have o: "ordered (events number_param)" by (simp add: ordered_def)
  from exponentialApproachValueAtTime_arrives [OF o ok]
  show ?thesis by (simp add: ok value_after_def)
qed

text \<open>
  The claim as it is written fails on a parameter whose unit clamps: with the unit
  \<^verbatim>\<open>"normalRange"\<close>, the approach to \<open>2\<close> over one second from time \<open>0\<close> reads \<open>1\<close> at its
  end, not \<open>2\<close>.
\<close>

theorem exponentialApproach_clamped_counterexample:
  "value_after (exponentialApproachValueAtTime normalRange_param (Fin 2) (Fin 0) (Fin 1)) 1 =
     Some (Fin 1)"
proof -
  have "\<exists>p'. exponentialApproachValueAtTime normalRange_param (Fin 2) (Fin 0) (Fin 1) = Inr p'"
    by (rule exponentialApproach_fresh) simp_all
  then obtain p' where
    ok: "exponentialApproachValueAtTime normalRange_param (Fin 2) (Fin 0) (Fin 1) = Inr p'" ..
  have o: "ordered (events normalRange_param)" by (simp add: ordered_def)
  from exponentialApproach_steps(3) [OF o ok]
  show ?thesis by (simp add: ok value_after_def)
qed

end
